theory Spec2Isabelle
  imports Main "HOL-Library.Word"
begin

section \<open>Characters and constants of the firmware\<close>

abbreviation (input) TAB :: char where "TAB \<equiv> CHR 0x09"
abbreviation (input) NL :: char where "NL \<equiv> CHR 0x0A"
abbreviation (input) CR :: char where "CR \<equiv> CHR 0x0D"
abbreviation (input) NUL :: char where "NUL \<equiv> CHR 0x00"

text \<open>\<^verbatim>\<open>#define MAX_SRV_CLIENTS 3\<close>, \<^verbatim>\<open>#define MAX_REQUEST_LENGTH 30\<close>,
  \<^verbatim>\<open>#define RESTART_HOLD_TIME 3000\<close>; the response buffers are \<^verbatim>\<open>char response[30]\<close>.\<close>

definition MAX_SRV_CLIENTS :: nat where "MAX_SRV_CLIENTS = 3"
definition MAX_REQUEST_LENGTH :: nat where "MAX_REQUEST_LENGTH = 30"
definition RESTART_HOLD_TIME :: nat where "RESTART_HOLD_TIME = 3000"
definition RESPONSE_SIZE :: nat where "RESPONSE_SIZE = 30"

section \<open>Decimal formatting and scanning (the C library calls the dispatcher makes)\<close>

text \<open>The conversions \<^verbatim>\<open>%d\<close>, \<^verbatim>\<open>%lld\<close> of \<^verbatim>\<open>sprintf\<close> and \<^verbatim>\<open>itoa(v, buf, 10)\<close>
  all print a signed value in base 10 with a leading minus sign for negative values and no
  leading zeros.\<close>

definition digit_char :: "nat \<Rightarrow> char" where
  "digit_char d = ''0123456789'' ! d"

fun dec_nat :: "nat \<Rightarrow> string" where
  "dec_nat n = (if n < 10 then [digit_char n] else dec_nat (n div 10) @ [digit_char (n mod 10)])"

declare dec_nat.simps [simp del]

definition dec_int :: "int \<Rightarrow> string" where
  "dec_int i = (if i < 0 then CHR ''-'' # dec_nat (nat (- i)) else dec_nat (nat i))"

text \<open>\<^verbatim>\<open>itoa(value, strval, 10)\<close>.\<close>

definition itoa :: "int \<Rightarrow> string" where
  "itoa v = dec_int v"

text \<open>Scanning a decimal integer the way \<^verbatim>\<open>%d\<close> of \<^verbatim>\<open>sscanf\<close> and \<^verbatim>\<open>atol\<close> do: white space
  is skipped, one optional sign is taken, then the longest run of digits, which must not be
  empty. The value is stored in a 32-bit \<^verbatim>\<open>int\<close>; a run of digits beyond that range saturates,
  as \<^verbatim>\<open>strtol\<close> does on this platform.\<close>

definition isspace :: "char \<Rightarrow> bool" where
  "isspace c = (c \<in> set [CHR '' '', CHR 0x09, CHR 0x0A, CHR 0x0B, CHR 0x0C, CHR 0x0D])"

definition isdigit :: "char \<Rightarrow> bool" where
  "isdigit c = (c \<in> set ''0123456789'')"

definition digit_val :: "char \<Rightarrow> nat" where
  "digit_val c = of_char c - 48"

definition digits_val :: "string \<Rightarrow> nat" where
  "digits_val ds = foldl (\<lambda>a c. 10 * a + digit_val c) 0 ds"

definition INT_MAX :: int where "INT_MAX = 2147483647"
definition INT_MIN :: int where "INT_MIN = - 2147483648"

definition saturate :: "int \<Rightarrow> int" where
  "saturate v = (if v > INT_MAX then INT_MAX else if v < INT_MIN then INT_MIN else v)"

definition scan_sign :: "string \<Rightarrow> bool \<times> string" where
  "scan_sign s = (case s of
       [] \<Rightarrow> (False, [])
     | c # r \<Rightarrow> if c = CHR ''-'' then (True, r) else if c = CHR ''+'' then (False, r) else (False, s))"

definition scan_d :: "string \<Rightarrow> (int \<times> string) option" where
  "scan_d s =
     (let (neg, s2) = scan_sign (dropWhile isspace s);
          ds = takeWhile isdigit s2;
          rest = dropWhile isdigit s2
      in if ds = [] then None
         else Some (saturate (if neg then - int (digits_val ds) else int (digits_val ds)), rest))"

text \<open>\<^verbatim>\<open>sscanf(details, "%d,%d", &azRes, &altRes)\<close>: the number of conversions stored (or
  \<^verbatim>\<open>EOF = -1\<close> when the input ends before the first conversion), with the values stored.\<close>

definition sscanf_d_comma_d :: "string \<Rightarrow> int \<times> int option \<times> int option" where
  "sscanf_d_comma_d details =
     (case scan_d details of
        None \<Rightarrow> (if dropWhile isspace details = [] then - 1 else 0, None, None)
      | Some (a, r1) \<Rightarrow>
          (case r1 of
             [] \<Rightarrow> (1, Some a, None)
           | c # r2 \<Rightarrow>
               if c = CHR '','' then
                 (case scan_d r2 of
                    None \<Rightarrow> (1, Some a, None)
                  | Some (b, r3) \<Rightarrow> (2, Some a, Some b))
               else (1, Some a, None)))"

text \<open>The text after a run of digits does not go on with a digit.\<close>

definition no_digit_ahead :: "string \<Rightarrow> bool" where
  "no_digit_ahead r = (case r of [] \<Rightarrow> True | c # cs \<Rightarrow> \<not> isdigit c)"

text \<open>The shape of the details of \<open>S\<close> in the words of the specification, ``two decimal
  integers separated by a comma'' and nothing else: a decimal integer is a non-empty run of
  digits, or a minus sign and such a run.\<close>

definition is_decimal_integer :: "string \<Rightarrow> bool" where
  "is_decimal_integer s =
     (case s of
        [] \<Rightarrow> False
      | c # r \<Rightarrow> if c = CHR ''-'' then r \<noteq> [] \<and> list_all isdigit r else list_all isdigit s)"

definition spec_shape_d_comma_d :: "string \<Rightarrow> bool" where
  "spec_shape_d_comma_d details =
     (let a = takeWhile (\<lambda>c. c \<noteq> CHR '','') details;
          r = dropWhile (\<lambda>c. c \<noteq> CHR '','') details
      in is_decimal_integer a \<and> r \<noteq> [] \<and> is_decimal_integer (tl r))"

text \<open>\<^verbatim>\<open>snprintf(response, n, ...)\<close> stores at most \<open>n - 1\<close> characters of the formatted text
  and a terminating NUL; \<^verbatim>\<open>sprintf\<close> stores the whole text. The three format strings of the
  dispatcher: \<^verbatim>\<open>"%lld\t%lld\t\n"\<close> (and \<^verbatim>\<open>"%d\t%d\t\n"\<close>, the same text for an \<^verbatim>\<open>int\<close>) and
  \<^verbatim>\<open>"%d-%d\n"\<close>.\<close>

definition snprintf :: "nat \<Rightarrow> string \<Rightarrow> string" where
  "snprintf n txt = take (n - 1) txt"

definition fmt_tab_tab_nl :: "int \<Rightarrow> int \<Rightarrow> string" where
  "fmt_tab_tab_nl a b = dec_int a @ [TAB] @ dec_int b @ [TAB, NL]"

definition fmt_dash_nl :: "int \<Rightarrow> int \<Rightarrow> string" where
  "fmt_dash_nl a b = dec_int a @ ''-'' @ dec_int b @ [NL]"

section \<open>Configuration Store\<close>

text \<open>Modelled from the spec: the class \<^verbatim>\<open>WebConfig\<close> (header \<^verbatim>\<open>WebConfig_DSC.h\<close>) is not part
  of the sources. The spec gives its interface, \<^verbatim>\<open>getInt(key)\<close>, \<^verbatim>\<open>getValue(key)\<close>,
  \<^verbatim>\<open>setValue(key, value)\<close>, over entries \<open>{name, value}\<close> whose values are strings
  (``resolution values are written back as decimal-string key/value pairs''); the firmware
  reads entry \<open>i\<close> with \<^verbatim>\<open>getName(i)\<close> and counts them with \<^verbatim>\<open>getCount()\<close>. The store is the
  list of its entries in the order of the \<^verbatim>\<open>params\<close> description.\<close>

type_synonym WebConfig = "(string \<times> string) list"

definition getCount :: "WebConfig \<Rightarrow> nat" where
  "getCount c = length c"

definition getName :: "WebConfig \<Rightarrow> nat \<Rightarrow> string" where
  "getName c i = (if i < length c then fst (c ! i) else [])"

fun getValue :: "WebConfig \<Rightarrow> string \<Rightarrow> string" where
  "getValue [] k = []"
| "getValue ((n, v) # c) k = (if n = k then v else getValue c k)"

fun setValue :: "WebConfig \<Rightarrow> string \<Rightarrow> string \<Rightarrow> WebConfig" where
  "setValue [] k v = []"
| "setValue ((n, w) # c) k v = (if n = k then (n, v) # c else (n, w) # setValue c k v)"

definition getInt :: "WebConfig \<Rightarrow> string \<Rightarrow> int" where
  "getInt c k = (case scan_d (getValue c k) of None \<Rightarrow> 0 | Some (v, r) \<Rightarrow> v)"

text \<open>The names the \<^verbatim>\<open>params\<close> description of the firmware declares, in its order.\<close>

definition param_names :: "string list" where
  "param_names = [''ssid'', ''pwd'', ''btname'', ''azsteps'', ''azstart'', ''alsteps'',
     ''alstart'', ''flpaz'', ''flpalt'', ''apikey'', ''userkey'']"

section \<open>Position Source and Command Dispatcher\<close>

text \<open>The two encoders hold a signed 64-bit count (\<^verbatim>\<open>getCount()\<close> returns \<^verbatim>\<open>int64_t\<close>);
  \<^verbatim>\<open>clearCount()\<close> sets it to zero. The dispatcher reads and writes the encoders and the
  configuration store, which are globals of the firmware.\<close>

record device =
  AZencoder :: "64 word"
  ALTencoder :: "64 word"
  conf :: WebConfig

definition clearCount :: "64 word \<Rightarrow> 64 word" where
  "clearCount e = 0"

text \<open>Modelled from the spec: the class \<^verbatim>\<open>ESP32Encoder\<close> belongs to a library and is not part
  of the sources. The spec's Position Source is a free-running signed 64-bit tick count that
  is changed only by hardware events and by the explicit operations \<^verbatim>\<open>clearCount\<close> and
  \<^verbatim>\<open>setCount\<close>, and that is not reduced modulo the resolution. \<^verbatim>\<open>setCount\<close> receives the
  32-bit \<^verbatim>\<open>int\<close> that \<^verbatim>\<open>getInt\<close> returns.\<close>

definition setCount :: "int \<Rightarrow> 64 word" where
  "setCount v = word_of_int v"

text \<open>\<^verbatim>\<open>setupEncoders()\<close>, the start of the device: each counter is cleared and set to its
  configured start position. The pins and the filter it also sets do not touch the counts.\<close>

definition setupEncoders :: "'a device_scheme \<Rightarrow> 'a device_scheme" where
  "setupEncoders d =
     (let d1 = d\<lparr>ALTencoder := clearCount (ALTencoder d)\<rparr>;
          d2 = d1\<lparr>ALTencoder := setCount (getInt (conf d1) ''alstart'')\<rparr>;
          d3 = d2\<lparr>AZencoder := clearCount (AZencoder d2)\<rparr>
      in d3\<lparr>AZencoder := setCount (getInt (conf d3) ''azstart'')\<rparr>)"

text \<open>Modelled from the spec: a hardware event is one tick of one encoder, up or down; a run
  of the hardware is a list of such events.\<close>

datatype hardware_event = AzUp | AzDown | AltUp | AltDown

fun hardware_step :: "'a device_scheme \<Rightarrow> hardware_event \<Rightarrow> 'a device_scheme" where
  "hardware_step d AzUp = d\<lparr>AZencoder := AZencoder d + 1\<rparr>"
| "hardware_step d AzDown = d\<lparr>AZencoder := AZencoder d - 1\<rparr>"
| "hardware_step d AltUp = d\<lparr>ALTencoder := ALTencoder d + 1\<rparr>"
| "hardware_step d AltDown = d\<lparr>ALTencoder := ALTencoder d - 1\<rparr>"

definition hardware_run :: "'a device_scheme \<Rightarrow> hardware_event list \<Rightarrow> 'a device_scheme" where
  "hardware_run d es = foldl hardware_step d es"

text \<open>\<^verbatim>\<open>processBBoxCommand(command, details, response)\<close>. The argument \<open>response\<close> is the text
  the caller's buffer holds before the call and the second component of the result the text it
  holds after it. \<^verbatim>\<open>sprintf\<close> composes its text without a bound; the two \<^verbatim>\<open>snprintf\<close> calls are
  bounded by 20. The diagnostic lines printed on the USB console are not modelled: nothing
  reads them back.\<close>

definition processBBoxCommand ::
  "char \<Rightarrow> string \<Rightarrow> string \<Rightarrow> 'a device_scheme \<Rightarrow> 'a device_scheme \<times> string" where
  "processBBoxCommand command details response d =
     (if command = CHR ''Q'' then
        (d, fmt_tab_tab_nl (sint (AZencoder d)) (sint (ALTencoder d)))
      else if command = CHR ''G'' then
        (d, snprintf 20 (fmt_dash_nl (getInt (conf d) ''azsteps'') (getInt (conf d) ''alsteps'')))
      else if command = CHR ''H'' then
        (d, snprintf 20 (fmt_tab_tab_nl (getInt (conf d) ''azsteps'') (getInt (conf d) ''alsteps'')))
      else if command = CHR ''Z'' then
        (d\<lparr>ALTencoder := clearCount (ALTencoder d), AZencoder := clearCount (AZencoder d)\<rparr>,
         ''OK'' @ [NL])
      else if command = CHR ''S'' then
        (case sscanf_d_comma_d details of
           (n, Some azRes, Some altRes) \<Rightarrow>
             if n = 2 then
               (d\<lparr>conf := setValue (setValue (conf d) ''azsteps'' (itoa azRes))
                                    ''alsteps'' (itoa altRes)\<rparr>,
                ''OK'' @ [NL])
             else (d, response)
         | _ \<Rightarrow> (d, response))
      else (d, [NL]))"

text \<open>A text fits the caller's buffer \<^verbatim>\<open>char response[30]\<close> when it and its terminating NUL
  take at most 30 bytes.\<close>

definition fits_response :: "string \<Rightarrow> bool" where
  "fits_response txt = (length txt + 1 \<le> RESPONSE_SIZE)"

section \<open>Transports\<close>

text \<open>Modelled from the spec: the classes \<^verbatim>\<open>WiFiClient\<close>, \<^verbatim>\<open>WiFiServer\<close> and
  \<^verbatim>\<open>BluetoothSerial\<close> belong to the platform and are not part of the sources. A session is a
  stream with a connected flag, the bytes buffered for reading (\<^verbatim>\<open>available()\<close> is true while
  there are any, \<^verbatim>\<open>read()\<close> takes the first) and the bytes written to the peer; a slot is empty
  or holds a session. The server holds the connections that wait to be accepted
  (\<^verbatim>\<open>hasClient()\<close>, \<^verbatim>\<open>available()\<close>). The connections the firmware has stopped are recorded.
  No byte arrives while one poll runs. \<^verbatim>\<open>println\<close> writes its text, then CR and NL.\<close>

record WiFiClient =
  connected :: bool
  rx :: string
  tx :: string

record firmware = device +
  serverClients :: "WiFiClient option list"
  backlog :: "WiFiClient list"
  stopped :: "WiFiClient list"
  bt_rx :: string
  bt_tx :: string
  clock :: nat

definition stop :: "WiFiClient \<Rightarrow> WiFiClient" where
  "stop c = c\<lparr>connected := False, rx := []\<rparr>"

definition println :: "string \<Rightarrow> string" where
  "println txt = txt @ [CR, NL]"

text \<open>A C string ends at its first NUL.\<close>

definition cstring :: "string \<Rightarrow> string" where
  "cstring bytes = takeWhile (\<lambda>c. c \<noteq> NUL) bytes"

subsection \<open>Request framing\<close>

text \<open>The Bluetooth adapter fills \<^verbatim>\<open>requestDetails\<close> in a loop,
  \<^verbatim>\<open>while (SerialBT.available() && count < MAX_REQUEST_LENGTH)\<close>; the result is the bytes
  stored and the input left.\<close>

fun readDetailsWhile :: "nat \<Rightarrow> string \<Rightarrow> string \<times> string" where
  "readDetailsWhile count [] = ([], [])"
| "readDetailsWhile count (b # input) =
     (if count < MAX_REQUEST_LENGTH then
        (case readDetailsWhile (Suc count) input of (ds, rest) \<Rightarrow> (b # ds, rest))
      else ([], b # input))"

text \<open>The TCP service has a conditional in the same place,
  \<^verbatim>\<open>if (serverClients[i].available() && count < MAX_REQUEST_LENGTH)\<close>, run once.\<close>

definition readDetailsIf :: "nat \<Rightarrow> string \<Rightarrow> string \<times> string" where
  "readDetailsIf count input =
     (case input of
        [] \<Rightarrow> ([], [])
      | b # rest \<Rightarrow> if count < MAX_REQUEST_LENGTH then ([b], rest) else ([], input))"

text \<open>\<^verbatim>\<open>while (available()) read();\<close>\<close>

fun flushInput :: "string \<Rightarrow> string" where
  "flushInput [] = []"
| "flushInput (b # input) = flushInput input"

text \<open>One request read from a non-empty input: the command, the details as the C string the
  dispatcher receives, and the input left after the flush.\<close>

definition readRequestBT :: "string \<Rightarrow> char \<times> string \<times> string" where
  "readRequestBT input =
     (let command = hd input;
          (requestDetails, rest) = readDetailsWhile 0 (tl input)
      in (command, cstring requestDetails, flushInput rest))"

definition readRequestTcp :: "string \<Rightarrow> char \<times> string \<times> string" where
  "readRequestTcp input =
     (let command = hd input;
          (requestDetails, rest) = readDetailsIf 0 (tl input)
      in (command, cstring requestDetails, flushInput rest))"

subsection \<open>Bluetooth channel\<close>

function printConfigFrom :: "nat \<Rightarrow> firmware \<Rightarrow> firmware" where
  "printConfigFrom i s =
     (if i < getCount (conf s) then
        printConfigFrom (Suc i)
          (s\<lparr>bt_tx := bt_tx s @ getName (conf s) i @ '' : ''
                   @ println (getValue (conf s) (getName (conf s) i))\<rparr>)
      else s)"
  by pat_completeness auto
termination
  by (relation "measure (\<lambda>(i, s). getCount (conf s) - i)") auto

declare printConfigFrom.simps [simp del]

definition printConfig :: "firmware \<Rightarrow> firmware" where
  "printConfig s = printConfigFrom 0 s"

text \<open>What the loop of \<^verbatim>\<open>printConfig\<close> sends for one entry, and for all entries in their
  order: the name, blank, colon, blank, and the value as a line.\<close>

definition config_line :: "WebConfig \<Rightarrow> string \<Rightarrow> string" where
  "config_line c k = k @ '' : '' @ println (getValue c k)"

definition config_dump :: "WebConfig \<Rightarrow> string" where
  "config_dump c = concat (map (config_line c) (map fst c))"

text \<open>\<^verbatim>\<open>attendBTRequests()\<close>. The local buffer \<^verbatim>\<open>char response[30]\<close> is not initialised: what it
  holds before the dispatch is the parameter \<open>uninit\<close>. \<^verbatim>\<open>DEBUG_PROTOCOL\<close> is defined, so the
  call of \<^verbatim>\<open>printConfig\<close> is compiled in.\<close>

definition attendBTRequests :: "string \<Rightarrow> firmware \<Rightarrow> firmware" where
  "attendBTRequests uninit s =
     (if bt_rx s \<noteq> [] then
        (case readRequestBT (bt_rx s) of
           (command, requestDetails, rest) \<Rightarrow>
             (case processBBoxCommand command requestDetails uninit (s\<lparr>bt_rx := rest\<rparr>) of
                (s1, response) \<Rightarrow>
                  (let s2 = (if command = CHR ''?'' then printConfig s1 else s1)
                   in s2\<lparr>bt_tx := bt_tx s2 @ println response\<rparr>)))
      else s)"

subsection \<open>TCP sessions\<close>

definition slot :: "nat \<Rightarrow> firmware \<Rightarrow> WiFiClient option" where
  "slot i s = (if i < length (serverClients s) then serverClients s ! i else None)"

text \<open>\<^verbatim>\<open>!serverClients[i] || !serverClients[i].connected()\<close>\<close>

definition slot_free :: "WiFiClient option \<Rightarrow> bool" where
  "slot_free x = (case x of None \<Rightarrow> True | Some c \<Rightarrow> \<not> connected c)"

text \<open>\<^verbatim>\<open>TCPserver.available()\<close> takes the first waiting connection, if there is one.\<close>

definition server_available :: "firmware \<Rightarrow> WiFiClient option \<times> firmware" where
  "server_available s =
     (case backlog s of [] \<Rightarrow> (None, s) | c # r \<Rightarrow> (Some c, s\<lparr>backlog := r\<rparr>))"

text \<open>The body of the scan at a free slot: stop the stale session, if the slot holds one, and
  store the accepted connection.\<close>

definition claim_slot :: "nat \<Rightarrow> firmware \<Rightarrow> firmware" where
  "claim_slot i s =
     (let s1 = (case slot i s of None \<Rightarrow> s | Some c \<Rightarrow> s\<lparr>stopped := stopped s @ [stop c]\<rparr>)
      in case server_available s1 of
           (x, s2) \<Rightarrow> s2\<lparr>serverClients := (serverClients s2)[i := x]\<rparr>)"

function acceptScan :: "nat \<Rightarrow> firmware \<Rightarrow> nat \<times> firmware" where
  "acceptScan i s =
     (if i < MAX_SRV_CLIENTS then
        (if slot_free (slot i s) then (i, claim_slot i s) else acceptScan (Suc i) s)
      else (i, s))"
  by pat_completeness auto
termination
  by (relation "measure (\<lambda>(i, s). MAX_SRV_CLIENTS - i)") auto

declare acceptScan.simps [simp del]

text \<open>\<^verbatim>\<open>WiFiClient serverClient = TCPserver.available(); serverClient.stop();\<close>\<close>

definition rejectClient :: "firmware \<Rightarrow> firmware" where
  "rejectClient s =
     (case server_available s of
        (None, s1) \<Rightarrow> s1
      | (Some c, s1) \<Rightarrow> s1\<lparr>stopped := stopped s1 @ [stop c]\<rparr>)"

definition acceptPhase :: "firmware \<Rightarrow> firmware" where
  "acceptPhase s =
     (if backlog s \<noteq> [] then
        (case acceptScan 0 s of
           (i, s1) \<Rightarrow> if i = MAX_SRV_CLIENTS then rejectClient s1 else s1)
      else s)"

text \<open>The body of the service loop for slot \<open>i\<close>; \<open>uninit\<close> is what the local response buffer
  holds before the dispatch.\<close>

definition serviceSlot :: "string \<Rightarrow> nat \<Rightarrow> firmware \<Rightarrow> firmware" where
  "serviceSlot uninit i s =
     (case slot i s of
        None \<Rightarrow> s
      | Some c \<Rightarrow>
          if connected c \<and> rx c \<noteq> [] then
            (case readRequestTcp (rx c) of
               (command, requestDetails, rest) \<Rightarrow>
                 (case processBBoxCommand command requestDetails uninit s of
                    (s1, response) \<Rightarrow>
                      s1\<lparr>serverClients := (serverClients s1)
                            [i := Some (c\<lparr>rx := rest, tx := tx c @ println response\<rparr>)]\<rparr>))
          else s)"

function servicePhase :: "(nat \<Rightarrow> string) \<Rightarrow> nat \<Rightarrow> firmware \<Rightarrow> firmware" where
  "servicePhase uninit i s =
     (if i < MAX_SRV_CLIENTS then servicePhase uninit (Suc i) (serviceSlot (uninit i) i s)
      else s)"
  by pat_completeness auto
termination
  by (relation "measure (\<lambda>(u, i, s). MAX_SRV_CLIENTS - i)") auto

declare servicePhase.simps [simp del]

definition attendTcpRequests :: "(nat \<Rightarrow> string) \<Rightarrow> firmware \<Rightarrow> firmware" where
  "attendTcpRequests uninit s = servicePhase uninit 0 (acceptPhase s)"

section \<open>Control loop\<close>

text \<open>\<^verbatim>\<open>delay(ms)\<close> lets \<open>ms\<close> milliseconds pass; the other statements take no time.
  \<^verbatim>\<open>digitalRead(PIN_RESET) == HIGH\<close> reads the level of the reset input at the current time:
  the input is a signal over time, \<open>reset_high\<close>. \<^verbatim>\<open>ESP.restart()\<close> ends the iteration.
  The beeper is not modelled. \<^verbatim>\<open>server.handleClient()\<close> belongs to the web configuration
  interface and is a parameter.\<close>

datatype outcome = Restarted firmware | Running firmware

definition delay :: "nat \<Rightarrow> firmware \<Rightarrow> firmware" where
  "delay ms s = s\<lparr>clock := clock s + ms\<rparr>"

definition resetButton :: "(nat \<Rightarrow> bool) \<Rightarrow> firmware \<Rightarrow> outcome" where
  "resetButton reset_high s =
     (if reset_high (clock s) then
        (let s1 = s\<lparr>ALTencoder := clearCount (ALTencoder s)\<rparr>;
             s2 = s1\<lparr>AZencoder := clearCount (AZencoder s1)\<rparr>;
             s3 = delay 300 s2;
             s4 = delay 2000 s3
         in if reset_high (clock s4) then Restarted (delay 600 s4) else Running s4)
      else Running s)"

definition loop ::
  "(nat \<Rightarrow> bool) \<Rightarrow> (firmware \<Rightarrow> firmware) \<Rightarrow> string \<Rightarrow> (nat \<Rightarrow> string) \<Rightarrow> firmware \<Rightarrow> outcome" where
  "loop reset_high handleClient uninit_bt uninit_tcp s =
     (case resetButton reset_high s of
        Restarted s1 \<Rightarrow> Restarted s1
      | Running s1 \<Rightarrow>
          Running (attendTcpRequests uninit_tcp (attendBTRequests uninit_bt (handleClient s1))))"

section \<open>Concrete device states\<close>

text \<open>A store with the two resolution entries at the defaults of the firmware
  (\<^verbatim>\<open>AZIMUTH_RES\<close>, \<^verbatim>\<open>ALTITUDE_RES\<close>), and one with two ten-digit resolutions.\<close>

definition small_conf :: WebConfig where
  "small_conf = [(''azsteps'', ''1800''), (''alsteps'', ''22140'')]"

definition long_conf :: WebConfig where
  "long_conf = [(''azsteps'', ''1234567890''), (''alsteps'', ''1234567890'')]"

definition dev0 :: device where
  "dev0 = \<lparr>AZencoder = 0, ALTencoder = 0, conf = small_conf\<rparr>"

text \<open>A complete store with the names of \<^verbatim>\<open>params\<close>.\<close>

definition full_conf :: WebConfig where
  "full_conf = [(''ssid'', ''HomeNet''), (''pwd'', ''secret''), (''btname'', ''Telescope''),
     (''azsteps'', ''1800''), (''azstart'', ''0''), (''alsteps'', ''22140''),
     (''alstart'', ''5624''), (''flpaz'', ''1''), (''flpalt'', ''1''), (''apikey'', []),
     (''userkey'', [])]"

text \<open>A device with the complete store, before \<^verbatim>\<open>setupEncoders\<close> has run.\<close>

definition dev_default :: device where
  "dev_default = \<lparr>AZencoder = 0, ALTencoder = 0, conf = full_conf\<rparr>"

text \<open>A firmware state with empty slots and idle channels; a connected session with buffered
  input; a request of 36 argument bytes.\<close>

definition fw0 :: firmware where
  "fw0 = \<lparr>AZencoder = 5, ALTencoder = 7, conf = small_conf,
           serverClients = [None, None, None], backlog = [], stopped = [],
           bt_rx = [], bt_tx = [], clock = 0\<rparr>"

definition session :: "string \<Rightarrow> WiFiClient" where
  "session input = \<lparr>connected = True, rx = input, tx = []\<rparr>"


text \<open>A reset input that is high from time 0 for \<open>ms\<close> milliseconds and low afterwards.\<close>

definition held_for :: "nat \<Rightarrow> nat \<Rightarrow> bool" where
  "held_for ms t = (t < ms)"

section \<open>Decimal texts\<close>

lemma digit_char_props: "d < 10 \<Longrightarrow> isdigit (digit_char d) \<and> digit_val (digit_char d) = d"
proof -
  assume "d < 10"
  then have "d \<in> {0,1,2,3,4,5,6,7,8,9}" by auto
  then show ?thesis
    by (auto simp: digit_char_def isdigit_def digit_val_def)
qed

lemma isdigit_digit_char: "d < 10 \<Longrightarrow> isdigit (digit_char d)"
  by (simp add: digit_char_props)

lemma digit_val_digit_char: "d < 10 \<Longrightarrow> digit_val (digit_char d) = d"
  by (simp add: digit_char_props)

lemma dec_nat_digits: "list_all isdigit (dec_nat n)"
proof (induction n rule: dec_nat.induct)
  case (1 n)
  show ?case
  proof (cases "n < 10")
    case True
    then show ?thesis by (simp add: dec_nat.simps [of n] isdigit_digit_char)
  next
    case False
    then show ?thesis using 1 by (simp add: dec_nat.simps [of n] isdigit_digit_char)
  qed
qed

lemma dec_nat_nonempty: "dec_nat n \<noteq> []"
  by (simp add: dec_nat.simps [of n])

lemma digits_val_snoc: "digits_val (ds @ [c]) = 10 * digits_val ds + digit_val c"
  by (simp add: digits_val_def)

lemma digits_val_dec_nat: "digits_val (dec_nat n) = n"
proof (induction n rule: dec_nat.induct)
  case (1 n)
  show ?case
  proof (cases "n < 10")
    case True
    then show ?thesis by (simp add: dec_nat.simps [of n] digits_val_def digit_val_digit_char)
  next
    case False
    then show ?thesis using 1
      by (simp add: dec_nat.simps [of n] digits_val_snoc digit_val_digit_char)
  qed
qed

lemma length_dec_nat: "0 < k \<Longrightarrow> n < 10 ^ k \<Longrightarrow> length (dec_nat n) \<le> k"
proof (induction n arbitrary: k rule: dec_nat.induct)
  case (1 n)
  show ?case
  proof (cases "n < 10")
    case True
    then show ?thesis using 1(2) by (simp add: dec_nat.simps [of n])
  next
    case False
    obtain j where k: "k = Suc j" using 1(2) by (cases k) auto
    have j: "0 < j" using False 1(3) k by (cases j) auto
    have "n < 10 * 10 ^ j" using 1(3) k by simp
    then have "n div 10 < 10 ^ j" by (simp add: less_mult_imp_div_less mult.commute)
    then have "length (dec_nat (n div 10)) \<le> j" using 1(1) [OF False j] by simp
    then show ?thesis using False k by (simp add: dec_nat.simps [of n])
  qed
qed

text \<open>A digit is neither white space nor a sign, a comma, a tab or a newline.\<close>

lemma isdigit_not_other:
  "isdigit c \<Longrightarrow> \<not> isspace c \<and> c \<noteq> CHR ''-'' \<and> c \<noteq> CHR ''+'' \<and> c \<noteq> CHR '','' \<and> c \<noteq> NL \<and> c \<noteq> TAB"
  by (auto simp: isdigit_def isspace_def)

lemma dec_nat_Cons: "\<exists>c cs. dec_nat n = c # cs \<and> isdigit c \<and> list_all isdigit cs"
  using dec_nat_digits [of n] dec_nat_nonempty [of n] by (cases "dec_nat n") auto

lemma takeWhile_digits:
  "list_all isdigit ds \<Longrightarrow> no_digit_ahead r \<Longrightarrow> takeWhile isdigit (ds @ r) = ds"
  by (induction ds) (auto simp: no_digit_ahead_def split: list.splits)

lemma dropWhile_digits:
  "list_all isdigit ds \<Longrightarrow> no_digit_ahead r \<Longrightarrow> dropWhile isdigit (ds @ r) = r"
  by (induction ds) (auto simp: no_digit_ahead_def split: list.splits)

lemma scan_d_dec_nat:
  assumes "no_digit_ahead r"
  shows "scan_d (dec_nat n @ r) = Some (saturate (int n), r)"
proof -
  obtain c cs where c: "dec_nat n = c # cs" "isdigit c" "list_all isdigit cs"
    using dec_nat_Cons by blast
  have sp: "dropWhile isspace (dec_nat n @ r) = dec_nat n @ r"
    using c isdigit_not_other [of c] by simp
  have sg: "scan_sign (dec_nat n @ r) = (False, dec_nat n @ r)"
    using c isdigit_not_other [of c] by (simp add: scan_sign_def)
  show ?thesis
    using assms dec_nat_digits [of n] dec_nat_nonempty [of n]
    by (simp add: scan_d_def sp sg takeWhile_digits dropWhile_digits digits_val_dec_nat)
qed

lemma scan_d_dec_int:
  assumes "no_digit_ahead r"
  shows "scan_d (dec_int i @ r) = Some (saturate i, r)"
proof (cases "i < 0")
  case False
  then show ?thesis using scan_d_dec_nat [OF assms, of "nat i"] by (simp add: dec_int_def)
next
  case True
  have "scan_d (CHR ''-'' # dec_nat (nat (- i)) @ r) = Some (saturate i, r)"
    using assms True dec_nat_digits [of "nat (- i)"] dec_nat_nonempty [of "nat (- i)"]
    by (simp add: scan_d_def isspace_def scan_sign_def takeWhile_digits dropWhile_digits
        digits_val_dec_nat)
  then show ?thesis using True by (simp add: dec_int_def)
qed

lemma sscanf_dec_pair:
  "sscanf_d_comma_d (dec_int a @ CHR '','' # dec_int b) = (2, Some (saturate a), Some (saturate b))"
proof -
  have 1: "scan_d (dec_int a @ CHR '','' # dec_int b) = Some (saturate a, CHR '','' # dec_int b)"
    by (rule scan_d_dec_int) (simp add: no_digit_ahead_def isdigit_def)
  have 2: "scan_d (dec_int b) = Some (saturate b, [])"
    using scan_d_dec_int [of "[]" b] by (simp add: no_digit_ahead_def)
  show ?thesis by (simp add: sscanf_d_comma_d_def 1 2)
qed

subsection \<open>Configuration store\<close>

lemma getValue_setValue_same:
  "k \<in> fst ` set c \<Longrightarrow> getValue (setValue c k v) k = v"
  by (induction c) force+

lemma getValue_setValue_other:
  "k' \<noteq> k \<Longrightarrow> getValue (setValue c k v) k' = getValue c k'"
  by (induction c) auto

lemma names_setValue: "map fst (setValue c k v) = map fst c"
  by (induction c) auto

lemma getInt_dec_int: "getValue c k = dec_int v \<Longrightarrow> getInt c k = saturate v"
  using scan_d_dec_int [of "[]" v] by (simp add: getInt_def no_digit_ahead_def)

lemma dec_int_chars: "NL \<notin> set (dec_int i) \<and> TAB \<notin> set (dec_int i)"
proof -
  have "\<forall>c \<in> set (dec_nat n). c \<noteq> NL \<and> c \<noteq> TAB" for n
    using dec_nat_digits [of n] isdigit_not_other by (auto simp: list_all_iff)
  then show ?thesis by (auto simp: dec_int_def)
qed

section \<open>Properties of the dispatcher\<close>

lemma dec_int_0: "dec_int 0 = ''0''"
  by (simp add: dec_int_def dec_nat.simps [of 0] digit_char_def)

text \<open>C8: whatever the two position counters hold, command \<open>Z\<close> answers \<open>OK\<close> and a newline,
  and command \<open>Q\<close> dispatched on the resulting device state (no hardware tick in between)
  answers exactly \<open>0\<close>, tab, \<open>0\<close>, tab, newline.\<close>

theorem Z_then_Q_zero:
  "snd (processBBoxCommand (CHR ''Z'') details response d) = ''OK'' @ [NL] \<and>
   snd (processBBoxCommand (CHR ''Q'') details' response'
          (fst (processBBoxCommand (CHR ''Z'') details response d)))
     = ''0'' @ [TAB] @ ''0'' @ [TAB, NL]"
  by (simp add: processBBoxCommand_def clearCount_def fmt_tab_tab_nl_def dec_int_0)

subsection \<open>Resolution queries\<close>

lemma take_before_last:
  "c \<notin> set body \<Longrightarrow> n \<le> length body \<Longrightarrow> c \<notin> set (take n (body @ [c]))"
  by (auto dest: in_set_takeD)

lemma snprintf_20: "snprintf 20 txt = take 19 txt"
  by (simp add: snprintf_def)

lemma fmt_dash_nl_truncated:
  "19 < length (fmt_dash_nl a b) \<Longrightarrow> NL \<notin> set (take 19 (fmt_dash_nl a b))"
proof -
  assume len: "19 < length (fmt_dash_nl a b)"
  have body: "NL \<notin> set (dec_int a @ ''-'' @ dec_int b)"
    using dec_int_chars [of a] dec_int_chars [of b] by simp
  have "NL \<notin> set (take 19 ((dec_int a @ ''-'' @ dec_int b) @ [NL]))"
    by (rule take_before_last [OF body]) (use len in \<open>simp add: fmt_dash_nl_def\<close>)
  then show ?thesis by (simp add: fmt_dash_nl_def)
qed

lemma fmt_tab_tab_nl_truncated:
  "19 < length (fmt_tab_tab_nl a b) \<Longrightarrow> NL \<notin> set (take 19 (fmt_tab_tab_nl a b))"
proof -
  assume len: "19 < length (fmt_tab_tab_nl a b)"
  have body: "NL \<notin> set (dec_int a @ [TAB] @ dec_int b @ [TAB])"
    using dec_int_chars [of a] dec_int_chars [of b] by simp
  have "NL \<notin> set (take 19 ((dec_int a @ [TAB] @ dec_int b @ [TAB]) @ [NL]))"
    by (rule take_before_last [OF body]) (use len in \<open>simp add: fmt_tab_tab_nl_def\<close>)
  then show ?thesis by (simp add: fmt_tab_tab_nl_def)
qed

text \<open>C10: for every configuration, commands \<open>G\<close> and \<open>H\<close> leave the device state as it is
  and answer with the first 19 characters of the formatted text, so that the characters and
  the terminating NUL take at most 20 bytes of the response buffer; when the formatted text
  has more than 19 characters the answer holds no newline: the trailing newline of \<open>G\<close> and
  the tab and newline that end \<open>H\<close> are cut.\<close>

theorem resolution_replies_bounded:
  "processBBoxCommand (CHR ''G'') details response d
     = (d, take 19 (fmt_dash_nl (getInt (conf d) ''azsteps'') (getInt (conf d) ''alsteps''))) \<and>
   processBBoxCommand (CHR ''H'') details response d
     = (d, take 19 (fmt_tab_tab_nl (getInt (conf d) ''azsteps'') (getInt (conf d) ''alsteps''))) \<and>
   length (snd (processBBoxCommand (CHR ''G'') details response d)) + 1 \<le> 20 \<and>
   length (snd (processBBoxCommand (CHR ''H'') details response d)) + 1 \<le> 20 \<and>
   (19 < length (fmt_dash_nl (getInt (conf d) ''azsteps'') (getInt (conf d) ''alsteps'')) \<longrightarrow>
      NL \<notin> set (snd (processBBoxCommand (CHR ''G'') details response d))) \<and>
   (19 < length (fmt_tab_tab_nl (getInt (conf d) ''azsteps'') (getInt (conf d) ''alsteps'')) \<longrightarrow>
      NL \<notin> set (snd (processBBoxCommand (CHR ''H'') details response d)))"
  by (simp add: processBBoxCommand_def snprintf_20 fmt_dash_nl_truncated fmt_tab_tab_nl_truncated)

lemma getInt_long_conf:
  "getInt long_conf ''azsteps'' = 1234567890 \<and> getInt long_conf ''alsteps'' = 1234567890"
  by (simp add: long_conf_def getInt_def scan_d_def scan_sign_def isspace_def isdigit_def
      digits_val_def digit_val_def saturate_def INT_MAX_def INT_MIN_def)

lemma dec_int_1234567890: "dec_int 1234567890 = ''1234567890''"
  by (simp add: dec_int_def dec_nat.simps digit_char_def)

text \<open>Two ten-digit resolutions: both formatted texts are longer than 19 characters, and the
  answer to \<open>H\<close> stops inside the second number.\<close>

theorem resolution_replies_bounded_witness:
  "19 < length (fmt_dash_nl (getInt long_conf ''azsteps'') (getInt long_conf ''alsteps'')) \<and>
   19 < length (fmt_tab_tab_nl (getInt long_conf ''azsteps'') (getInt long_conf ''alsteps'')) \<and>
   NL \<notin> set (snd (processBBoxCommand (CHR ''G'') [] []
                     \<lparr>AZencoder = 0, ALTencoder = 0, conf = long_conf\<rparr>)) \<and>
   NL \<notin> set (snd (processBBoxCommand (CHR ''H'') [] []
                     \<lparr>AZencoder = 0, ALTencoder = 0, conf = long_conf\<rparr>)) \<and>
   snd (processBBoxCommand (CHR ''H'') [] [] \<lparr>AZencoder = 0, ALTencoder = 0, conf = long_conf\<rparr>)
     = ''1234567890'' @ [TAB] @ ''12345678''"
  using resolution_replies_bounded
    [of "[]" "[]" "\<lparr>AZencoder = 0, ALTencoder = 0, conf = long_conf\<rparr>"]
  by (simp add: getInt_long_conf fmt_dash_nl_def fmt_tab_tab_nl_def dec_int_1234567890)

subsection \<open>Setting the resolution\<close>

lemmas scan_eval = scan_d_def scan_sign_def isspace_def isdigit_def
      digits_val_def digit_val_def saturate_def INT_MAX_def INT_MIN_def

lemma S_conf:
  "processBBoxCommand (CHR ''S'') (dec_int a @ CHR '','' # dec_int b) response d
     = (d\<lparr>conf := setValue (setValue (conf d) ''azsteps'' (dec_int (saturate a)))
                          ''alsteps'' (dec_int (saturate b))\<rparr>, ''OK'' @ [NL])"
  by (simp add: processBBoxCommand_def sscanf_dec_pair itoa_def)

text \<open>The decimal text of a value that the configuration form admits has at most 8
  characters.\<close>

lemma config_range_fits: "0 < v \<Longrightarrow> v \<le> 10000000 \<Longrightarrow> length (dec_int v) \<le> 8"
  using length_dec_nat [of 8 "nat v"] by (simp add: dec_int_def)

text \<open>C2, as amended: the store holds the entries \<open>azsteps\<close> and \<open>alsteps\<close>, and \<open>az\<close> and
  \<open>alt\<close> are positive values of a 32-bit \<^verbatim>\<open>int\<close> whose decimal texts have at most 16
  characters together (every pair up to 10000000, the largest value the configuration form
  admits, is such a pair). Then command \<open>S\<close> with the details \<open>az,alt\<close> answers \<open>OK\<close> and a
  newline and stores the two decimal texts under \<open>azsteps\<close> and \<open>alsteps\<close>, and command
  \<open>H\<close> on the resulting state answers exactly \<open>az\<close>, tab, \<open>alt\<close>, tab, newline.\<close>

theorem S_then_H_roundtrip:
  assumes keys: "''azsteps'' \<in> fst ` set (conf d)" "''alsteps'' \<in> fst ` set (conf d)"
    and az: "0 < az" "az \<le> INT_MAX" and alt: "0 < alt" "alt \<le> INT_MAX"
    and len: "length (dec_int az) + length (dec_int alt) \<le> 16"
  shows "snd (processBBoxCommand (CHR ''S'') (dec_int az @ '','' @ dec_int alt) response d)
           = ''OK'' @ [NL] \<and>
         getValue (conf (fst (processBBoxCommand (CHR ''S'') (dec_int az @ '','' @ dec_int alt)
                                response d))) ''azsteps'' = dec_int az \<and>
         getValue (conf (fst (processBBoxCommand (CHR ''S'') (dec_int az @ '','' @ dec_int alt)
                                response d))) ''alsteps'' = dec_int alt \<and>
         snd (processBBoxCommand (CHR ''H'') details' response'
                (fst (processBBoxCommand (CHR ''S'') (dec_int az @ '','' @ dec_int alt)
                        response d)))
           = dec_int az @ [TAB] @ dec_int alt @ [TAB, NL]"
proof -
  let ?c = "setValue (setValue (conf d) ''azsteps'' (dec_int az)) ''alsteps'' (dec_int alt)"
  have sa: "saturate az = az" and sb: "saturate alt = alt"
    using az alt by (simp_all add: saturate_def INT_MIN_def)
  have k2: "''alsteps'' \<in> fst ` set (setValue (conf d) ''azsteps'' (dec_int az))"
    using keys(2) names_setValue [of "conf d" "''azsteps''" "dec_int az"]
    by (metis list.set_map)
  have va: "getValue ?c ''azsteps'' = dec_int az"
    using keys(1) by (simp add: getValue_setValue_other getValue_setValue_same)
  have vb: "getValue ?c ''alsteps'' = dec_int alt"
    using k2 by (simp add: getValue_setValue_same)
  have ia: "getInt ?c ''azsteps'' = az" and ib: "getInt ?c ''alsteps'' = alt"
    using getInt_dec_int [OF va] getInt_dec_int [OF vb] sa sb by simp_all
  have H: "snd (processBBoxCommand (CHR ''H'') details' response' (d\<lparr>conf := ?c\<rparr>))
             = dec_int az @ [TAB] @ dec_int alt @ [TAB, NL]"
    using len by (simp add: processBBoxCommand_def snprintf_20 ia ib fmt_tab_tab_nl_def)
  show ?thesis
    using va vb H by (simp add: S_conf sa sb)
qed

lemma dec_int_1800: "dec_int 1800 = ''1800''"
  by (simp add: dec_int_def dec_nat.simps digit_char_def)

lemma dec_int_22140: "dec_int 22140 = ''22140''"
  by (simp add: dec_int_def dec_nat.simps digit_char_def)

text \<open>The resolutions of the firmware's defaults, 1800 and 22140.\<close>

theorem S_then_H_roundtrip_witness:
  "''azsteps'' \<in> fst ` set (conf dev0) \<and> ''alsteps'' \<in> fst ` set (conf dev0) \<and>
   (0::int) < 1800 \<and> 1800 \<le> INT_MAX \<and> (0::int) < 22140 \<and> 22140 \<le> INT_MAX \<and>
   length (dec_int 1800) + length (dec_int 22140) \<le> 16 \<and>
   snd (processBBoxCommand (CHR ''S'') ''1800,22140'' [] dev0) = ''OK'' @ [NL] \<and>
   snd (processBBoxCommand (CHR ''H'') [] []
          (fst (processBBoxCommand (CHR ''S'') ''1800,22140'' [] dev0)))
     = ''1800'' @ [TAB] @ ''22140'' @ [TAB, NL]"
  using S_then_H_roundtrip [of dev0 1800 22140 "[]" "[]" "[]"]
  by (simp add: dev0_def small_conf_def INT_MAX_def dec_int_1800 dec_int_22140)

lemma dec_int_123456789: "dec_int 123456789 = ''123456789''"
  by (simp add: dec_int_def dec_nat.simps digit_char_def)

text \<open>C2 as stated fails for two nine-digit resolutions: \<open>S\<close> answers \<open>OK\<close>, and the answer
  to \<open>H\<close> is cut after 19 characters, before the closing tab and newline.\<close>

theorem S_then_H_truncated_counterexample:
  "snd (processBBoxCommand (CHR ''S'') ''123456789,123456789'' [] dev0) = ''OK'' @ [NL] \<and>
   snd (processBBoxCommand (CHR ''H'') [] []
          (fst (processBBoxCommand (CHR ''S'') ''123456789,123456789'' [] dev0)))
     = ''123456789'' @ [TAB] @ ''123456789'' \<and>
   snd (processBBoxCommand (CHR ''H'') [] []
          (fst (processBBoxCommand (CHR ''S'') ''123456789,123456789'' [] dev0)))
     \<noteq> dec_int 123456789 @ [TAB] @ dec_int 123456789 @ [TAB, NL]"
proof -
  have S: "processBBoxCommand (CHR ''S'') ''123456789,123456789'' [] dev0
             = (dev0\<lparr>conf := [(''azsteps'', ''123456789''), (''alsteps'', ''123456789'')]\<rparr>,
                ''OK'' @ [NL])"
    using S_conf [of 123456789 123456789 "[]" dev0]
    by (simp add: dec_int_123456789 saturate_def INT_MAX_def INT_MIN_def dev0_def small_conf_def)
  have g: "getInt [(''azsteps'', ''123456789''), (''alsteps'', ''123456789'')] ''azsteps'' = 123456789"
          "getInt [(''azsteps'', ''123456789''), (''alsteps'', ''123456789'')] ''alsteps'' = 123456789"
    by (simp_all add: getInt_def scan_eval)
  have H: "snd (processBBoxCommand (CHR ''H'') [] []
                 (dev0\<lparr>conf := [(''azsteps'', ''123456789''), (''alsteps'', ''123456789'')]\<rparr>))
             = ''123456789'' @ [TAB] @ ''123456789''"
    by (simp add: processBBoxCommand_def snprintf_20 fmt_tab_tab_nl_def g dec_int_123456789)
  show ?thesis
    unfolding S fst_conv snd_conv H by (simp add: dec_int_123456789)
qed

subsection \<open>Position query\<close>

lemma run_AzDown:
  "hardware_run d (replicate n AzDown) = d\<lparr>AZencoder := AZencoder d - of_nat n\<rparr>"
  by (induction n arbitrary: d) (simp_all add: hardware_run_def)

lemma run_AltUp:
  "hardware_run d (replicate n AltUp) = d\<lparr>ALTencoder := ALTencoder d + of_nat n\<rparr>"
  by (induction n arbitrary: d) (simp_all add: hardware_run_def)

lemma run_append: "hardware_run d (es @ fs) = hardware_run (hardware_run d es) fs"
  by (simp add: hardware_run_def)

lemma setupEncoders_default:
  "setupEncoders dev_default = \<lparr>AZencoder = 0, ALTencoder = 5624, conf = full_conf\<rparr>"
proof -
  have "getInt full_conf ''alstart'' = 5624" "getInt full_conf ''azstart'' = 0"
    by (simp_all add: getInt_def full_conf_def scan_eval)
  then show ?thesis
    by (simp add: setupEncoders_def dev_default_def clearCount_def setCount_def)
qed

lemma length_dec_int_range:
  assumes "- 1000000000000 < v" "v < 10000000000000"
  shows "length (dec_int v) \<le> 13"
proof (cases "v < 0")
  case True
  then have "nat (- v) < 10 ^ 12" using assms(1) by simp
  then have "length (dec_nat (nat (- v))) \<le> 12" by (rule length_dec_nat [rotated]) simp
  then show ?thesis using True by (simp add: dec_int_def)
next
  case False
  then have "nat v < 10 ^ 13" using assms(2) by simp
  then have "length (dec_nat (nat v)) \<le> 13" by (rule length_dec_nat [rotated]) simp
  then show ?thesis using False by (simp add: dec_int_def)
qed

lemma sint_word_of_int_small:
  "- 9223372036854775808 \<le> k \<Longrightarrow> k < 9223372036854775808 \<Longrightarrow> sint (word_of_int k :: 64 word) = k"
  by (simp add: signed_of_int signed_take_bit_int_eq_self)

lemma sint_succ:
  fixes c :: "64 word"
  assumes "sint c < 9223372036854775807"
  shows "sint (c + 1) = sint c + 1"
proof -
  have "c + 1 = word_of_int (sint c + 1)" by simp
  moreover have "- 9223372036854775808 \<le> sint c" using sint_ge [of c] by simp
  ultimately show ?thesis using assms sint_word_of_int_small [of "sint c + 1"] by simp
qed

lemma sint_pred:
  fixes c :: "64 word"
  assumes "- 9223372036854775808 < sint c"
  shows "sint (c - 1) = sint c - 1"
proof -
  have "c - 1 = word_of_int (sint c - 1)" by simp
  moreover have "sint c < 9223372036854775808" using sint_lt [of c] by simp
  ultimately show ?thesis using assms sint_word_of_int_small [of "sint c - 1"] by simp
qed

lemma hardware_step_bound:
  assumes "\<bar>sint (AZencoder d)\<bar> \<le> n" "\<bar>sint (ALTencoder d)\<bar> \<le> n" "n < 1000000000000"
  shows "\<bar>sint (AZencoder (hardware_step d e))\<bar> \<le> n + 1 \<and>
         \<bar>sint (ALTencoder (hardware_step d e))\<bar> \<le> n + 1"
  using assms by (cases e) (simp_all add: sint_succ sint_pred)

lemma hardware_run_bound:
  assumes "\<bar>sint (AZencoder d)\<bar> \<le> n" "\<bar>sint (ALTencoder d)\<bar> \<le> n"
    "n + int (length es) \<le> 1000000000000"
  shows "\<bar>sint (AZencoder (hardware_run d es))\<bar> \<le> n + int (length es) \<and>
         \<bar>sint (ALTencoder (hardware_run d es))\<bar> \<le> n + int (length es)"
  using assms(3)
proof (induction es rule: rev_induct)
  case Nil
  then show ?case using assms(1,2) by (simp add: hardware_run_def)
next
  case (snoc e es)
  have ih: "\<bar>sint (AZencoder (hardware_run d es))\<bar> \<le> n + int (length es) \<and>
         \<bar>sint (ALTencoder (hardware_run d es))\<bar> \<le> n + int (length es)"
    using snoc by simp
  have "n + int (length es) < 1000000000000" using snoc(2) by simp
  then show ?case
    using hardware_step_bound [of "hardware_run d es" "n + int (length es)" e] ih
    by (simp add: hardware_run_def)
qed

lemma getInt_int32: "INT_MIN \<le> getInt c k \<and> getInt c k \<le> INT_MAX"
proof -
  have "INT_MIN \<le> saturate v \<and> saturate v \<le> INT_MAX" for v
    by (simp add: saturate_def INT_MIN_def INT_MAX_def)
  then show ?thesis
    by (auto simp: getInt_def scan_d_def Let_def INT_MIN_def INT_MAX_def
        split: option.splits prod.splits if_splits)
qed

lemma sint_setCount: "INT_MIN \<le> v \<Longrightarrow> v \<le> INT_MAX \<Longrightarrow> sint (setCount v) = v"
  by (simp add: setCount_def INT_MIN_def INT_MAX_def signed_of_int signed_take_bit_int_eq_self)

lemma setupEncoders_counts:
  "sint (AZencoder (setupEncoders d)) = getInt (conf d) ''azstart'' \<and>
   sint (ALTencoder (setupEncoders d)) = getInt (conf d) ''alstart''"
  using getInt_int32 [of "conf d" "''azstart''"] getInt_int32 [of "conf d" "''alstart''"]
  by (simp add: setupEncoders_def Let_def sint_setCount)

lemma Q_fits_iff:
  "fits_response (snd (processBBoxCommand (CHR ''Q'') details response d)) \<longleftrightarrow>
     length (dec_int (sint (AZencoder d))) + length (dec_int (sint (ALTencoder d))) \<le> 26"
  by (auto simp: processBBoxCommand_def fmt_tab_tab_nl_def fits_response_def RESPONSE_SIZE_def)

lemma Q_fits_range:
  assumes "- 1000000000000 < sint (AZencoder d)" "sint (AZencoder d) < 10000000000000"
    "- 1000000000000 < sint (ALTencoder d)" "sint (ALTencoder d) < 10000000000000"
  shows "fits_response (snd (processBBoxCommand (CHR ''Q'') details response d))"
  using length_dec_int_range [OF assms(1,2)] length_dec_int_range [OF assms(3,4)]
  by (simp add: Q_fits_iff)

lemma Q_fits_after_ticks:
  assumes "length es < 997852516352"
  shows "fits_response (snd (processBBoxCommand (CHR ''Q'') details response
           (hardware_run (setupEncoders d) es)))"
proof -
  have a: "\<bar>sint (AZencoder (setupEncoders d))\<bar> \<le> 2147483648"
       "\<bar>sint (ALTencoder (setupEncoders d))\<bar> \<le> 2147483648"
    using getInt_int32 [of "conf d" "''azstart''"] getInt_int32 [of "conf d" "''alstart''"]
    by (auto simp: setupEncoders_counts INT_MIN_def INT_MAX_def)
  have "2147483648 + int (length es) \<le> 1000000000000" using assms by simp
  from hardware_run_bound [OF a this]
  show ?thesis using assms by (intro Q_fits_range) auto
qed

text \<open>C3, as amended: the text that \<open>Q\<close> composes fits the 30 bytes of the caller's response
  buffer, with its terminating NUL, exactly when the decimal texts of the two tick counts have
  at most 26 characters together. They have whenever both counts lie strictly between
  \<open>-10\<^sup>1\<^sup>2\<close> and \<open>10\<^sup>1\<^sup>3\<close>, and so in every state that fewer than 997852516352 hardware ticks
  lead to from the start of the device, where each count is a 32-bit start position. Every
  other command writes nothing or a text that takes at most 20 bytes with its NUL.\<close>

theorem response_fits_buffer:
  "(fits_response (snd (processBBoxCommand (CHR ''Q'') details response d)) \<longleftrightarrow>
      length (dec_int (sint (AZencoder d))) + length (dec_int (sint (ALTencoder d))) \<le> 26) \<and>
   (- 1000000000000 < sint (AZencoder d) \<and> sint (AZencoder d) < 10000000000000 \<and>
    - 1000000000000 < sint (ALTencoder d) \<and> sint (ALTencoder d) < 10000000000000 \<longrightarrow>
      fits_response (snd (processBBoxCommand (CHR ''Q'') details response d))) \<and>
   (length es < 997852516352 \<longrightarrow>
      fits_response (snd (processBBoxCommand (CHR ''Q'') details response
                            (hardware_run (setupEncoders d) es)))) \<and>
   (command \<noteq> CHR ''Q'' \<longrightarrow>
      snd (processBBoxCommand command details response d) = response \<or>
      length (snd (processBBoxCommand command details response d)) + 1 \<le> 20)"
proof -
  have other: "snd (processBBoxCommand command details response d) = response \<or>
      length (snd (processBBoxCommand command details response d)) + 1 \<le> 20"
    if "command \<noteq> CHR ''Q''"
    using that
    by (auto simp: processBBoxCommand_def snprintf_20 min_def split: prod.splits option.splits)
  show ?thesis
    using Q_fits_iff [of details response d] Q_fits_range [of d details response]
      Q_fits_after_ticks [of es details response d] other
    by blast
qed

text \<open>The start of the device with the complete store, two ticks later, and an unknown
  command.\<close>

theorem response_fits_buffer_witness:
  "- 1000000000000 < sint (AZencoder (setupEncoders dev_default)) \<and>
   sint (AZencoder (setupEncoders dev_default)) < 10000000000000 \<and>
   - 1000000000000 < sint (ALTencoder (setupEncoders dev_default)) \<and>
   sint (ALTencoder (setupEncoders dev_default)) < 10000000000000 \<and>
   fits_response (snd (processBBoxCommand (CHR ''Q'') [] [] (setupEncoders dev_default))) \<and>
   length [AzUp, AltDown] < 997852516352 \<and>
   fits_response (snd (processBBoxCommand (CHR ''Q'') [] []
                         (hardware_run (setupEncoders dev_default) [AzUp, AltDown]))) \<and>
   snd (processBBoxCommand (CHR ''Q'') [] []
          (hardware_run (setupEncoders dev_default) [AzUp, AltDown]))
     = ''1'' @ [TAB] @ ''5623'' @ [TAB, NL] \<and>
   CHR ''X'' \<noteq> CHR ''Q'' \<and>
   length (snd (processBBoxCommand (CHR ''X'') [] ''previous'' (setupEncoders dev_default))) + 1
     \<le> 20"
  using response_fits_buffer [of "[]" "[]" "setupEncoders dev_default" "[AzUp, AltDown]" "CHR ''X''"]
    response_fits_buffer [of "[]" "''previous''" "setupEncoders dev_default" "[]" "CHR ''X''"]
    response_fits_buffer [of "[]" "[]" dev_default "[AzUp, AltDown]" "CHR ''X''"]
  by (simp add: setupEncoders_default processBBoxCommand_def hardware_run_def fmt_tab_tab_nl_def
      dec_int_def dec_nat.simps digit_char_def)

text \<open>C3 as stated fails in a state that hardware ticks lead to from the start of the device:
  after \<open>10\<^sup>1\<^sup>2\<close> ticks down on the azimuth encoder and \<open>10\<^sup>1\<^sup>2\<close> ticks up on the altitude
  encoder the text that \<open>Q\<close> composes has 30 characters and does not fit the buffer with its
  NUL.\<close>

theorem Q_overflow_after_ticks_counterexample:
  "snd (processBBoxCommand (CHR ''Q'') [] []
          (hardware_run (setupEncoders dev_default)
             (replicate 1000000000000 AzDown @ replicate 1000000000000 AltUp)))
     = ''-1000000000000'' @ [TAB] @ ''1000000005624'' @ [TAB, NL] \<and>
   \<not> fits_response (snd (processBBoxCommand (CHR ''Q'') [] []
          (hardware_run (setupEncoders dev_default)
             (replicate 1000000000000 AzDown @ replicate 1000000000000 AltUp))))"
proof -
  have st: "hardware_run (setupEncoders dev_default)
             (replicate 1000000000000 AzDown @ replicate 1000000000000 AltUp)
          = \<lparr>AZencoder = - 1000000000000, ALTencoder = 1000000005624, conf = full_conf\<rparr>"
    unfolding run_append run_AzDown run_AltUp setupEncoders_default by simp
  show ?thesis
    unfolding st
    by (simp add: processBBoxCommand_def fmt_tab_tab_nl_def dec_int_def dec_nat.simps
        digit_char_def fits_response_def RESPONSE_SIZE_def)
qed

subsection \<open>Malformed resolution settings\<close>

lemma scan_d_decimal_integer:
  assumes "is_decimal_integer a" "no_digit_ahead r"
  shows "\<exists>v. scan_d (a @ r) = Some (v, r)"
proof (cases a)
  case Nil
  then show ?thesis using assms(1) by (simp add: is_decimal_integer_def)
next
  case (Cons c cs)
  show ?thesis
  proof (cases "c = CHR ''-''")
    case True
    then have "cs \<noteq> []" "list_all isdigit cs"
      using assms(1) Cons by (simp_all add: is_decimal_integer_def)
    then show ?thesis
      using assms(2) Cons True
      by (simp add: scan_d_def isspace_def scan_sign_def takeWhile_digits dropWhile_digits)
  next
    case False
    then have d: "isdigit c" "list_all isdigit (c # cs)"
      using assms(1) Cons by (simp_all add: is_decimal_integer_def)
    have sp: "dropWhile isspace ((c # cs) @ r) = (c # cs) @ r"
      using d(1) isdigit_not_other [of c] by simp
    have sg: "scan_sign ((c # cs) @ r) = (False, (c # cs) @ r)"
      using d(1) isdigit_not_other [of c] by (simp add: scan_sign_def)
    have tk: "takeWhile isdigit ((c # cs) @ r) = c # cs" "dropWhile isdigit ((c # cs) @ r) = r"
      using takeWhile_digits [OF d(2) assms(2)] dropWhile_digits [OF d(2) assms(2)] by simp_all
    show ?thesis
      unfolding Cons scan_d_def sp sg by (simp only: tk Let_def prod.case) simp
  qed
qed

lemma spec_shape_scanned:
  assumes "spec_shape_d_comma_d details"
  shows "fst (sscanf_d_comma_d details) = 2"
proof -
  let ?a = "takeWhile (\<lambda>c. c \<noteq> CHR '','') details"
  let ?r = "dropWhile (\<lambda>c. c \<noteq> CHR '','') details"
  have a: "is_decimal_integer ?a" and r: "?r \<noteq> []" and b: "is_decimal_integer (tl ?r)"
    using assms by (simp_all add: spec_shape_d_comma_d_def Let_def)
  have "hd ?r = CHR '',''" using r hd_dropWhile [of "\<lambda>c. c \<noteq> CHR '',''" details] by auto
  then have rr: "?r = CHR '','' # tl ?r" using r by (cases ?r) auto
  have details: "details = ?a @ CHR '','' # tl ?r"
    using rr takeWhile_dropWhile_id [of "\<lambda>c. c \<noteq> CHR '',''" details] by simp
  obtain v where 1: "scan_d (?a @ CHR '','' # tl ?r) = Some (v, CHR '','' # tl ?r)"
    using scan_d_decimal_integer [OF a, of "CHR '','' # tl ?r"]
    by (auto simp: no_digit_ahead_def isdigit_def)
  obtain w where 2: "scan_d (tl ?r) = Some (w, [])"
    using scan_d_decimal_integer [OF b, of "[]"] by (auto simp: no_digit_ahead_def)
  have "fst (sscanf_d_comma_d (?a @ CHR '','' # tl ?r)) = 2"
    by (simp add: sscanf_d_comma_d_def 1 2)
  then show ?thesis using details by simp
qed

text \<open>C4, as amended: command \<open>S\<close> with details from which \<^verbatim>\<open>sscanf\<close> with the format
  \<^verbatim>\<open>"%d,%d"\<close> does not convert two integers returns the device state, with both resolution
  entries, and the content of the response buffer as they were before the call. With details
  from which it converts two integers the command stores both under \<open>azsteps\<close> and
  \<open>alsteps\<close> and answers \<open>OK\<close> and a newline. Every details string that is exactly two
  decimal integers separated by a comma is one from which two integers are converted.\<close>

theorem S_malformed_ignored:
  "(fst (sscanf_d_comma_d details) \<noteq> 2 \<longrightarrow>
      processBBoxCommand (CHR ''S'') details response d = (d, response)) \<and>
   (fst (sscanf_d_comma_d details) = 2 \<longrightarrow>
      (\<exists>azRes altRes. sscanf_d_comma_d details = (2, Some azRes, Some altRes) \<and>
         processBBoxCommand (CHR ''S'') details response d
           = (d\<lparr>conf := setValue (setValue (conf d) ''azsteps'' (itoa azRes))
                                ''alsteps'' (itoa altRes)\<rparr>, ''OK'' @ [NL]))) \<and>
   (spec_shape_d_comma_d details \<longrightarrow> fst (sscanf_d_comma_d details) = 2)"
  using spec_shape_scanned [of details]
  by (auto simp: processBBoxCommand_def sscanf_d_comma_d_def
      split: option.splits list.splits prod.splits if_splits)

text \<open>The details \<open>badinput\<close> and \<open>1800\<close> change nothing; \<open>4096,8192\<close>, also after a blank,
  sets both resolutions.\<close>

theorem S_malformed_ignored_witness:
  "fst (sscanf_d_comma_d ''badinput'') \<noteq> 2 \<and>
   processBBoxCommand (CHR ''S'') ''badinput'' ''previous'' dev0 = (dev0, ''previous'') \<and>
   fst (sscanf_d_comma_d ''1800'') \<noteq> 2 \<and>
   processBBoxCommand (CHR ''S'') ''1800'' ''previous'' dev0 = (dev0, ''previous'') \<and>
   fst (sscanf_d_comma_d '' 4096,8192'') = 2 \<and>
   processBBoxCommand (CHR ''S'') '' 4096,8192'' ''previous'' dev0
     = (dev0\<lparr>conf := [(''azsteps'', ''4096''), (''alsteps'', ''8192'')]\<rparr>, ''OK'' @ [NL]) \<and>
   spec_shape_d_comma_d ''4096,8192'' \<and> fst (sscanf_d_comma_d ''4096,8192'') = 2"
  using S_malformed_ignored [of "''badinput''" "''previous''" dev0]
    S_malformed_ignored [of "''1800''" "''previous''" dev0]
    S_malformed_ignored [of "'' 4096,8192''" "''previous''" dev0]
    S_malformed_ignored [of "''4096,8192''" "''previous''" dev0]
  by (simp add: sscanf_d_comma_d_def scan_eval dev0_def small_conf_def itoa_def dec_int_def
      dec_nat.simps digit_char_def spec_shape_d_comma_d_def is_decimal_integer_def)

text \<open>C4 as stated fails for details that go on after the second integer: \<open>4096,8192xyz\<close> is
  not of the exact shape, and the command writes both resolutions and answers \<open>OK\<close>.\<close>

theorem S_trailing_text_counterexample:
  "\<not> spec_shape_d_comma_d ''4096,8192xyz'' \<and>
   processBBoxCommand (CHR ''S'') ''4096,8192xyz'' ''previous'' dev0
     = (dev0\<lparr>conf := [(''azsteps'', ''4096''), (''alsteps'', ''8192'')]\<rparr>, ''OK'' @ [NL]) \<and>
   conf (fst (processBBoxCommand (CHR ''S'') ''4096,8192xyz'' ''previous'' dev0)) \<noteq> conf dev0 \<and>
   snd (processBBoxCommand (CHR ''S'') ''4096,8192xyz'' ''previous'' dev0) \<noteq> ''previous''"
proof -
  have 1: "sscanf_d_comma_d ''4096,8192xyz'' = (2, Some 4096, Some 8192)"
    by (simp add: sscanf_d_comma_d_def scan_eval)
  have 2: "itoa 4096 = ''4096''" "itoa 8192 = ''8192''"
    by (simp_all add: itoa_def dec_int_def dec_nat.simps digit_char_def)
  have 3: "\<not> spec_shape_d_comma_d ''4096,8192xyz''"
    by (simp add: spec_shape_d_comma_d_def is_decimal_integer_def isdigit_def)
  show ?thesis
    using 3 by (simp add: processBBoxCommand_def 1 2 dev0_def small_conf_def)
qed

section \<open>Properties of the transports\<close>

subsection \<open>Request framing\<close>

lemma readDetailsWhile_take_drop:
  "readDetailsWhile count input
     = (take (MAX_REQUEST_LENGTH - count) input, drop (MAX_REQUEST_LENGTH - count) input)"
proof (induction input arbitrary: count)
  case Nil
  show ?case by simp
next
  case (Cons b input)
  show ?case
  proof (cases "count < MAX_REQUEST_LENGTH")
    case True
    then have "MAX_REQUEST_LENGTH - count = Suc (MAX_REQUEST_LENGTH - Suc count)" by simp
    then show ?thesis using True Cons [of "Suc count"] by simp
  next
    case False
    then show ?thesis by simp
  qed
qed

lemma flushInput_empty: "flushInput input = []"
  by (induction input) simp_all



lemma readRequestBT_Cons:
  "readRequestBT (command # args) = (command, cstring (take MAX_REQUEST_LENGTH args), [])"
  by (simp add: readRequestBT_def readDetailsWhile_take_drop flushInput_empty)

lemma readRequestTcp_Cons:
  "readRequestTcp (command # args) = (command, cstring (take 1 args), [])"
  by (cases args) (simp_all add: readRequestTcp_def readDetailsIf_def flushInput_empty
      MAX_REQUEST_LENGTH_def)


lemma printConfigFrom_dump:
  "printConfigFrom i s
     = s\<lparr>bt_tx := bt_tx s @ concat (map (config_line (conf s)) (drop i (map fst (conf s))))\<rparr>"
proof (induction i s rule: printConfigFrom.induct)
  case (1 i s)
  show ?case
  proof (cases "i < getCount (conf s)")
    case True
    then have d: "drop i (map fst (conf s)) = fst (conf s ! i) # drop (Suc i) (map fst (conf s))"
      by (simp add: getCount_def Cons_nth_drop_Suc [symmetric])
    show ?thesis
      using True 1 [OF True]
      by (subst printConfigFrom.simps) (simp add: d getName_def getCount_def config_line_def [abs_def])
  next
    case False
    then show ?thesis
      by (subst printConfigFrom.simps) (simp add: getCount_def)
  qed
qed

lemma printConfig_dump: "printConfig s = s\<lparr>bt_tx := bt_tx s @ config_dump (conf s)\<rparr>"
  by (simp add: printConfig_def printConfigFrom_dump config_dump_def)





subsection \<open>Details of a TCP request\<close>

lemmas fw_eval = fw0_def session_def small_conf_def slot_def serviceSlot_def
  readRequestTcp_Cons readRequestBT_Cons MAX_REQUEST_LENGTH_def MAX_SRV_CLIENTS_def cstring_def
  println_def

text \<open>C1: the nine argument bytes \<open>4096,8192\<close> arrive behind the command \<open>S\<close> in one buffer.
  The TCP service passes the single byte \<open>4\<close> to the dispatcher as details, drops the other
  eight, leaves the configuration as it was and sends what the response buffer held before;
  the Bluetooth adapter passes all nine, sets both resolutions and sends \<open>OK\<close>.\<close>

theorem tcp_details_single_byte:
  "readRequestTcp ''S4096,8192'' = (CHR ''S'', ''4'', []) \<and>
   readRequestBT ''S4096,8192'' = (CHR ''S'', ''4096,8192'', []) \<and>
   attendTcpRequests (\<lambda>i. ''junk'')
       (fw0\<lparr>serverClients := [Some (session ''S4096,8192''), None, None]\<rparr>)
     = fw0\<lparr>serverClients :=
             [Some \<lparr>connected = True, rx = [], tx = ''junk'' @ [CR, NL]\<rparr>, None, None]\<rparr> \<and>
   attendBTRequests ''junk'' (fw0\<lparr>bt_rx := ''S4096,8192''\<rparr>)
     = fw0\<lparr>conf := [(''azsteps'', ''4096''), (''alsteps'', ''8192'')],
           bt_tx := ''OK'' @ [NL, CR, NL]\<rparr>"
proof -
  have 1: "sscanf_d_comma_d ''4'' = (1, Some 4, None)"
    by (simp add: sscanf_d_comma_d_def scan_eval)
  have 2: "sscanf_d_comma_d ''4096,8192'' = (2, Some 4096, Some 8192)"
    by (simp add: sscanf_d_comma_d_def scan_eval)
  have 3: "itoa 4096 = ''4096''" "itoa 8192 = ''8192''"
    by (simp_all add: itoa_def dec_int_def dec_nat.simps digit_char_def)
  have tcp: "attendTcpRequests (\<lambda>i. ''junk'')
       (fw0\<lparr>serverClients := [Some (session ''S4096,8192''), None, None]\<rparr>)
     = fw0\<lparr>serverClients :=
             [Some \<lparr>connected = True, rx = [], tx = ''junk'' @ [CR, NL]\<rparr>, None, None]\<rparr>"
    by (simp add: attendTcpRequests_def acceptPhase_def servicePhase.simps fw_eval
        processBBoxCommand_def 1)
  have bt: "attendBTRequests ''junk'' (fw0\<lparr>bt_rx := ''S4096,8192''\<rparr>)
     = fw0\<lparr>conf := [(''azsteps'', ''4096''), (''alsteps'', ''8192'')],
           bt_tx := ''OK'' @ [NL, CR, NL]\<rparr>"
    by (simp add: attendBTRequests_def fw_eval processBBoxCommand_def 2 3)
  show ?thesis using tcp bt by (simp add: readRequestTcp_Cons readRequestBT_Cons fw_eval)
qed


subsection \<open>Accept phase\<close>

lemma acceptScan_full:
  assumes "serverClients s = [a, b, c]" "\<not> slot_free a" "\<not> slot_free b" "\<not> slot_free c"
  shows "acceptScan 0 s = (MAX_SRV_CLIENTS, s)"
  using assms by (simp add: acceptScan.simps slot_def MAX_SRV_CLIENTS_def)

lemma processBBoxCommand_backlog_stopped:
  "processBBoxCommand command details response (s\<lparr>backlog := b, stopped := st\<rparr>)
     = (case processBBoxCommand command details response s of
          (s1, r) \<Rightarrow> (s1\<lparr>backlog := b, stopped := st\<rparr>, r))"
  by (simp add: processBBoxCommand_def split: prod.splits option.splits)

lemma serviceSlot_backlog_stopped:
  "serviceSlot uninit i (s\<lparr>backlog := b, stopped := st\<rparr>)
     = (serviceSlot uninit i s)\<lparr>backlog := b, stopped := st\<rparr>"
  by (simp add: serviceSlot_def slot_def processBBoxCommand_backlog_stopped
      split: option.splits prod.splits)

lemma servicePhase_backlog_stopped:
  "servicePhase uninit i (s\<lparr>backlog := b, stopped := st\<rparr>)
     = (servicePhase uninit i s)\<lparr>backlog := b, stopped := st\<rparr>"
proof (induction uninit i s rule: servicePhase.induct)
  case (1 uninit i s)
  show ?case
  proof (cases "i < MAX_SRV_CLIENTS")
    case True
    show ?thesis
      using True 1 [OF True]
      by (subst (1 2) servicePhase.simps) (simp add: serviceSlot_backlog_stopped)
  next
    case False
    then show ?thesis by (subst (1 2) servicePhase.simps) simp
  qed
qed

text \<open>C6: all three slots hold connected sessions and a connection \<open>x\<close> waits to be accepted.
  The accept phase takes \<open>x\<close> from the server and stops it: \<open>x\<close> is neither left waiting nor
  stored in a slot. The three slots hold the same sessions as before, and the service phase of
  the poll handles them as it would have handled them with no connection waiting.\<close>

theorem fourth_client_rejected:
  assumes slots: "serverClients s = [Some c0, Some c1, Some c2]"
    and busy: "connected c0" "connected c1" "connected c2"
    and pending: "backlog s = x # waiting"
  shows "acceptPhase s = s\<lparr>backlog := waiting, stopped := stopped s @ [stop x]\<rparr> \<and>
         serverClients (acceptPhase s) = [Some c0, Some c1, Some c2] \<and>
         backlog (acceptPhase s) = waiting \<and>
         \<not> connected (last (stopped (acceptPhase s))) \<and>
         attendTcpRequests uninit s
           = (servicePhase uninit 0 s)\<lparr>backlog := waiting, stopped := stopped s @ [stop x]\<rparr>"
proof -
  have a: "acceptPhase s = s\<lparr>backlog := waiting, stopped := stopped s @ [stop x]\<rparr>"
    using pending busy
    by (simp add: acceptPhase_def acceptScan_full [OF slots] slot_free_def rejectClient_def
        server_available_def)
  show ?thesis
    using slots by (simp add: a attendTcpRequests_def servicePhase_backlog_stopped stop_def)
qed

text \<open>Three connected sessions and a fourth connection waiting.\<close>

theorem fourth_client_rejected_witness:
  "serverClients (fw0\<lparr>serverClients := [Some (session ''Q''), Some (session []), Some (session ''H'')],
                      backlog := [session ''Z'']\<rparr>)
     = [Some (session ''Q''), Some (session []), Some (session ''H'')] \<and>
   connected (session ''Q'') \<and> connected (session []) \<and> connected (session ''H'') \<and>
   backlog (fw0\<lparr>serverClients := [Some (session ''Q''), Some (session []), Some (session ''H'')],
                backlog := [session ''Z'']\<rparr>) = [session ''Z''] \<and>
   acceptPhase (fw0\<lparr>serverClients := [Some (session ''Q''), Some (session []), Some (session ''H'')],
                    backlog := [session ''Z'']\<rparr>)
     = fw0\<lparr>serverClients := [Some (session ''Q''), Some (session []), Some (session ''H'')],
           backlog := [], stopped := [\<lparr>connected = False, rx = [], tx = []\<rparr>]\<rparr>"
  using fourth_client_rejected [where s = "fw0\<lparr>serverClients :=
        [Some (session ''Q''), Some (session []), Some (session ''H'')], backlog := [session ''Z'']\<rparr>"
      and ?c0.0 = "session ''Q''" and ?c1.0 = "session []" and ?c2.0 = "session ''H''"
      and x = "session ''Z''" and waiting = "[]" and uninit = "\<lambda>i. []"]
  by (simp add: fw0_def session_def slot_free_def stop_def)


subsection \<open>Configuration dump\<close>

lemma attendBTRequests_query:
  assumes "bt_rx s = CHR ''?'' # args"
  shows "attendBTRequests uninit s
           = s\<lparr>bt_rx := [], bt_tx := bt_tx s @ config_dump (conf s) @ println [NL]\<rparr>"
  using assms
  by (simp add: attendBTRequests_def readRequestBT_Cons processBBoxCommand_def printConfig_dump)

lemma serviceSlot_query:
  assumes "slot i s = Some c" "connected c" "rx c = CHR ''?'' # args"
  shows "serviceSlot uninit i s
           = s\<lparr>serverClients := (serverClients s)
                  [i := Some (c\<lparr>rx := [], tx := tx c @ println [NL]\<rparr>)]\<rparr>"
  using assms
  by (simp add: serviceSlot_def readRequestTcp_Cons processBBoxCommand_def)

text \<open>C9: when the command byte read from the Bluetooth channel is \<open>?\<close>, the adapter sends, for
  every entry of the store in order, its name, \<open> : \<close> and its value as a line, and after them
  the dispatcher's response (a newline) as a line. With the names of \<^verbatim>\<open>params\<close> the first two
  lines are the WiFi SSID and the WiFi password. The TCP service of the same command byte
  sends the response line only, and nothing on the Bluetooth channel.\<close>

theorem config_dump_on_bluetooth:
  "(bt_rx s = CHR ''?'' # args \<longrightarrow>
      bt_tx (attendBTRequests uninit s) = bt_tx s @ config_dump (conf s) @ println [NL]) \<and>
   (map fst (conf s) = param_names \<longrightarrow>
      config_dump (conf s)
        = ''ssid : '' @ println (getValue (conf s) ''ssid'')
          @ ''pwd : '' @ println (getValue (conf s) ''pwd'')
          @ concat (map (config_line (conf s)) (drop 2 param_names))) \<and>
   (slot i s = Some c \<and> connected c \<and> rx c = CHR ''?'' # args' \<longrightarrow>
      slot i (serviceSlot uninit' i s) = Some (c\<lparr>rx := [], tx := tx c @ println [NL]\<rparr>) \<and>
      bt_tx (serviceSlot uninit' i s) = bt_tx s)"
proof -
  have tcp: "slot i (serviceSlot uninit' i s) = Some (c\<lparr>rx := [], tx := tx c @ println [NL]\<rparr>) \<and>
      bt_tx (serviceSlot uninit' i s) = bt_tx s"
    if h: "slot i s = Some c" "connected c" "rx c = CHR ''?'' # args'"
  proof -
    have "i < length (serverClients s)" using h(1) by (simp add: slot_def split: if_splits)
    then show ?thesis by (simp add: serviceSlot_query [OF h] slot_def)
  qed
  have dump: "config_dump (conf s)
        = ''ssid : '' @ println (getValue (conf s) ''ssid'')
          @ ''pwd : '' @ println (getValue (conf s) ''pwd'')
          @ concat (map (config_line (conf s)) (drop 2 param_names))"
    if "map fst (conf s) = param_names"
    using that by (simp add: config_dump_def param_names_def config_line_def)
  show ?thesis
    using tcp dump by (simp add: attendBTRequests_query)
qed

text \<open>A complete store, a \<open>?\<close> on the Bluetooth channel and a \<open>?\<close> in slot 0.\<close>

theorem config_dump_on_bluetooth_witness:
  "bt_rx (fw0\<lparr>conf := full_conf, bt_rx := ''?'',
               serverClients := [Some (session ''?''), None, None]\<rparr>) = CHR ''?'' # [] \<and>
   map fst (conf (fw0\<lparr>conf := full_conf, bt_rx := ''?'',
               serverClients := [Some (session ''?''), None, None]\<rparr>)) = param_names \<and>
   slot 0 (fw0\<lparr>conf := full_conf, bt_rx := ''?'',
               serverClients := [Some (session ''?''), None, None]\<rparr>) = Some (session ''?'') \<and>
   connected (session ''?'') \<and> rx (session ''?'') = CHR ''?'' # [] \<and>
   bt_tx (attendBTRequests [] (fw0\<lparr>conf := full_conf, bt_rx := ''?'',
               serverClients := [Some (session ''?''), None, None]\<rparr>))
     = ''ssid : HomeNet'' @ [CR, NL] @ ''pwd : secret'' @ [CR, NL]
       @ ''btname : Telescope'' @ [CR, NL] @ ''azsteps : 1800'' @ [CR, NL]
       @ ''azstart : 0'' @ [CR, NL] @ ''alsteps : 22140'' @ [CR, NL]
       @ ''alstart : 5624'' @ [CR, NL] @ ''flpaz : 1'' @ [CR, NL] @ ''flpalt : 1'' @ [CR, NL]
       @ ''apikey : '' @ [CR, NL] @ ''userkey : '' @ [CR, NL] @ [NL, CR, NL] \<and>
   slot 0 (serviceSlot [] 0 (fw0\<lparr>conf := full_conf, bt_rx := ''?'',
               serverClients := [Some (session ''?''), None, None]\<rparr>))
     = Some \<lparr>connected = True, rx = [], tx = [NL, CR, NL]\<rparr>"
  using config_dump_on_bluetooth [where s = "fw0\<lparr>conf := full_conf, bt_rx := ''?'',
        serverClients := [Some (session ''?''), None, None]\<rparr>" and args = "[]" and args' = "[]"
      and uninit = "[]" and uninit' = "[]" and i = 0 and c = "session ''?''"]
  by (simp add: fw0_def session_def slot_def full_conf_def param_names_def config_dump_def
      config_line_def println_def)

subsection \<open>Reset button\<close>

lemma resetButton_cases:
  "resetButton reset_high s =
     (if reset_high (clock s) then
        (if reset_high (clock s + 2300) then
           Restarted (s\<lparr>ALTencoder := 0, AZencoder := 0, clock := clock s + 2900\<rparr>)
         else Running (s\<lparr>ALTencoder := 0, AZencoder := 0, clock := clock s + 2300\<rparr>))
      else Running s)"
  by (simp add: resetButton_def delay_def clearCount_def Let_def add.commute)

text \<open>C5: the reset input is high at the start of the iteration and stays high for 2500 ms.
  The loop clears both counters, samples the input again after 2300 ms and restarts the
  device, although the input is low \<^verbatim>\<open>RESTART_HOLD_TIME\<close> = 3000 ms after the first sample.\<close>

theorem restart_sampled_after_2300:
  "loop (held_for 2500) (\<lambda>s. s) [] (\<lambda>i. []) fw0
     = Restarted (fw0\<lparr>ALTencoder := 0, AZencoder := 0, clock := 2900\<rparr>) \<and>
   held_for 2500 (clock fw0) \<and>
   \<not> held_for 2500 (clock fw0 + RESTART_HOLD_TIME)"
  by (simp add: loop_def resetButton_cases held_for_def fw0_def RESTART_HOLD_TIME_def)

end
